theory Spec2Isabelle
  imports Main
begin

section \<open>Rectangle\<close>

text \<open>
  \<^verbatim>\<open>function Rectangle(width, height)\<close> returns an object literal with the two
  fields and a method \<^verbatim>\<open>getArea() { return this.width * this.height; }\<close>.
  The object is a record; the method takes the receiver. The number type is left open:
  the only operation the code applies is the multiplication of the two fields.
\<close>

record 'a rectangle =
  width :: 'a
  height :: 'a

definition Rectangle :: "'a \<Rightarrow> 'a \<Rightarrow> 'a rectangle" where
  "Rectangle w h = \<lparr>width = w, height = h\<rparr>"

definition getArea :: "('a::times) rectangle \<Rightarrow> 'a" where
  "getArea this = width this * height this"

section \<open>The selector builder: objects and the store\<close>

text \<open>
  \<^verbatim>\<open>cssSelectorBuilder\<close> is one object literal; every chaining method derives a new
  object from its receiver with \<^verbatim>\<open>Object.create(this)\<close>, and \<^verbatim>\<open>stringify\<close> assigns
  to fields of its receiver. Which object an assignment lands on matters, so objects
  live in a store: an address is an index into the list of objects allocated so far, and
  \<^verbatim>\<open>Object.create\<close> allocates at the end. An object holds its prototype link and its
  own properties; a property that the object does not own is \<open>None\<close>.
\<close>

type_synonym addr = nat

record jsobj =
  proto :: "addr option"
  cssCode :: "string option"
  lastSelector :: "string option"
  lastOrder :: "int option"

type_synonym heap = "jsobj list"

text \<open>
  Reading a property: the own property if there is one, otherwise the prototype's, along
  the chain; \<open>None\<close> is JavaScript's \<^verbatim>\<open>undefined\<close>. A prototype is always allocated
  before the object created from it, so a link points to a smaller address.
\<close>

fun getProp :: "heap \<Rightarrow> (jsobj \<Rightarrow> 'v option) \<Rightarrow> addr \<Rightarrow> 'v option" where
  "getProp h f a =
     (if a < length h then
        (case f (h ! a) of
           Some v \<Rightarrow> Some v
         | None \<Rightarrow>
             (case proto (h ! a) of
                None \<Rightarrow> None
              | Some p \<Rightarrow> if p < a then getProp h f p else None))
      else None)"

declare getProp.simps [simp del]

text \<open>\<^verbatim>\<open>Object.create(proto)\<close>: a fresh object without own properties.\<close>

definition Object_create :: "heap \<Rightarrow> addr \<Rightarrow> addr \<times> heap" where
  "Object_create h p =
     (length h, h @ [\<lparr>proto = Some p, cssCode = None, lastSelector = None, lastOrder = None\<rparr>])"

text \<open>An assignment \<^verbatim>\<open>obj.field = v\<close> writes an own property of \<open>obj\<close>.\<close>

definition setProp :: "heap \<Rightarrow> addr \<Rightarrow> (jsobj \<Rightarrow> jsobj) \<Rightarrow> heap" where
  "setProp h a upd = (if a < length h then h[a := upd (h ! a)] else h)"

text \<open>\<^verbatim>\<open>Array.prototype.indexOf\<close>: the first position of the element, or \<open>-1\<close>.\<close>

fun indexOf :: "'a list \<Rightarrow> 'a \<Rightarrow> int" where
  "indexOf [] x = - 1"
| "indexOf (y # ys) x =
     (if y = x then 0 else (let i = indexOf ys x in if i = - 1 then - 1 else i + 1))"

text \<open>
  The property \<^verbatim>\<open>correctOrder\<close> is defined on the object literal and assigned nowhere:
  every object reads this list.
\<close>

definition correctOrder :: "string list" where
  "correctOrder = [''element'', ''id'', ''class'', ''attr'', ''pseudoClass'', ''pseudoElement'']"

text \<open>The two errors are \<^verbatim>\<open>new Error(message)\<close>.\<close>

datatype error = Error string

definition duplicateMessage :: string where
  "duplicateMessage =
     ''Element, id and pseudo-element should not occur more then one time inside the selectord''"

definition orderMessage :: string where
  "orderMessage =
     ''Selector parts should be arranged in the following order: element, id, class, attribute, pseudo-class, pseudo-element''"

text \<open>The store at module load: the object literal alone, at address 0.\<close>

definition cssSelectorBuilder :: addr where
  "cssSelectorBuilder = 0"

definition initHeap :: heap where
  "initHeap = [\<lparr>proto = None, cssCode = Some [], lastSelector = Some [], lastOrder = Some (- 1)\<rparr>]"

section \<open>The selector builder: methods\<close>

text \<open>
  Each method takes the store and its receiver \<open>this\<close>. Comparisons with
  \<^verbatim>\<open>undefined\<close> are written out: \<^verbatim>\<open>===\<close> with a string is false, \<^verbatim>\<open>!== -1\<close> is
  true, \<^verbatim>\<open><\<close> is false, and \<^verbatim>\<open>undefined + value\<close> is the text "undefined"
  followed by the value.
\<close>

definition getLastElemError :: "heap \<Rightarrow> addr \<Rightarrow> string \<Rightarrow> bool" where
  "getLastElemError h this selector =
     ((selector = ''id'' \<and> Some selector = getProp h lastSelector this)
      \<or> (selector = ''element'' \<and> Some selector = getProp h lastSelector this)
      \<or> (selector = ''pseudoElement'' \<and> Some selector = getProp h lastSelector this))"

definition incorrectOrder :: "heap \<Rightarrow> addr \<Rightarrow> string \<Rightarrow> bool" where
  "incorrectOrder h this selector =
     (getProp h lastOrder this \<noteq> Some (- 1)
      \<and> (case getProp h lastOrder this of
            None \<Rightarrow> False
          | Some lo \<Rightarrow> indexOf correctOrder selector < lo))"

definition toText :: "string option \<Rightarrow> string" where
  "toText v = (case v of None \<Rightarrow> ''undefined'' | Some s \<Rightarrow> s)"

definition copyBuilder :: "heap \<Rightarrow> addr \<Rightarrow> string \<Rightarrow> string \<Rightarrow> (error + addr) \<times> heap" where
  "copyBuilder h this val selector =
     (case Object_create h this of
        (copiesSelectorBuilder, h1) \<Rightarrow>
          if getLastElemError h1 copiesSelectorBuilder selector then
            (Inl (Error duplicateMessage), h1)
          else if incorrectOrder h1 copiesSelectorBuilder selector then
            (Inl (Error orderMessage), h1)
          else
            (let h2 = setProp h1 copiesSelectorBuilder
                        (\<lambda>ob. ob\<lparr>lastOrder := Some (indexOf correctOrder selector)\<rparr>);
                 h3 = setProp h2 copiesSelectorBuilder (\<lambda>ob. ob\<lparr>lastSelector := Some selector\<rparr>);
                 h4 = setProp h3 copiesSelectorBuilder
                        (\<lambda>ob. ob\<lparr>cssCode := Some (toText (getProp h3 cssCode copiesSelectorBuilder) @ val)\<rparr>)
             in (Inr copiesSelectorBuilder, h4)))"

definition stringify :: "heap \<Rightarrow> addr \<Rightarrow> string option \<times> heap" where
  "stringify h this =
     (let copiesCSSCode = getProp h cssCode this;
          h1 = setProp h this (\<lambda>ob. ob\<lparr>cssCode := Some []\<rparr>);
          h2 = setProp h1 this (\<lambda>ob. ob\<lparr>lastOrder := Some (- 1)\<rparr>);
          h3 = setProp h2 this (\<lambda>ob. ob\<lparr>lastSelector := Some []\<rparr>)
      in (copiesCSSCode, h3))"

definition element :: "heap \<Rightarrow> addr \<Rightarrow> string \<Rightarrow> (error + addr) \<times> heap" where
  "element h this val = copyBuilder h this val ''element''"

definition idSel :: "heap \<Rightarrow> addr \<Rightarrow> string \<Rightarrow> (error + addr) \<times> heap" where
  "idSel h this val = copyBuilder h this (''#'' @ val) ''id''"

definition classSel :: "heap \<Rightarrow> addr \<Rightarrow> string \<Rightarrow> (error + addr) \<times> heap" where
  "classSel h this val = copyBuilder h this (''.'' @ val) ''class''"

definition attr :: "heap \<Rightarrow> addr \<Rightarrow> string \<Rightarrow> (error + addr) \<times> heap" where
  "attr h this val = copyBuilder h this (''['' @ val @ '']'') ''attr''"

definition pseudoClass :: "heap \<Rightarrow> addr \<Rightarrow> string \<Rightarrow> (error + addr) \<times> heap" where
  "pseudoClass h this val = copyBuilder h this ('':'' @ val) ''pseudoClass''"

definition pseudoElement :: "heap \<Rightarrow> addr \<Rightarrow> string \<Rightarrow> (error + addr) \<times> heap" where
  "pseudoElement h this val = copyBuilder h this (''::'' @ val) ''pseudoElement''"

definition combine :: "heap \<Rightarrow> addr \<Rightarrow> addr \<Rightarrow> string \<Rightarrow> addr \<Rightarrow> (error + addr) \<times> heap" where
  "combine h this selector1 combinator selector2 =
     (case stringify h selector1 of
        (sel1, h1) \<Rightarrow>
          (case stringify h1 selector2 of
             (sel2, h2) \<Rightarrow>
               copyBuilder h2 this
                 (toText sel1 @ '' '' @ combinator @ '' '' @ toText sel2) []))"

section \<open>Chains of calls\<close>

text \<open>
  A caller's expression \<^verbatim>\<open>b.m1(v1).m2(v2)...\<close>: each call's receiver is the object the
  previous call returned, and an exception ends the chain.
\<close>

datatype call =
  Element string | Id string | Class string | Attr string
  | PseudoClass string | PseudoElement string

fun invoke :: "heap \<Rightarrow> addr \<Rightarrow> call \<Rightarrow> (error + addr) \<times> heap" where
  "invoke h this (Element v) = element h this v"
| "invoke h this (Id v) = idSel h this v"
| "invoke h this (Class v) = classSel h this v"
| "invoke h this (Attr v) = attr h this v"
| "invoke h this (PseudoClass v) = pseudoClass h this v"
| "invoke h this (PseudoElement v) = pseudoElement h this v"

fun chain :: "heap \<Rightarrow> addr \<Rightarrow> call list \<Rightarrow> (error + addr) \<times> heap" where
  "chain h this [] = (Inr this, h)"
| "chain h this (c # cs) =
     (case invoke h this c of
        (Inl e, h') \<Rightarrow> (Inl e, h')
      | (Inr a, h') \<Rightarrow> chain h' a cs)"

text \<open>
  The table of the specification: the category of each call, the fragment it contributes,
  and the rank of its category in \<open>correctOrder\<close>. That each method passes exactly this
  fragment and this category to \<open>copyBuilder\<close> is lemma \<open>invoke_copyBuilder\<close> below.
\<close>

fun selectorOf :: "call \<Rightarrow> string" where
  "selectorOf (Element v) = ''element''"
| "selectorOf (Id v) = ''id''"
| "selectorOf (Class v) = ''class''"
| "selectorOf (Attr v) = ''attr''"
| "selectorOf (PseudoClass v) = ''pseudoClass''"
| "selectorOf (PseudoElement v) = ''pseudoElement''"

fun fragment :: "call \<Rightarrow> string" where
  "fragment (Element v) = v"
| "fragment (Id v) = ''#'' @ v"
| "fragment (Class v) = ''.'' @ v"
| "fragment (Attr v) = ''['' @ v @ '']''"
| "fragment (PseudoClass v) = '':'' @ v"
| "fragment (PseudoElement v) = ''::'' @ v"

definition rank :: "call \<Rightarrow> int" where
  "rank c = indexOf correctOrder (selectorOf c)"

section \<open>Vocabulary of the properties\<close>

text \<open>
  \<open>snapshot h a t s lo\<close>: in the store \<open>h\<close>, the object \<open>a\<close> owns its three
  properties: the accumulated text \<open>t\<close>, the last category \<open>s\<close> and the last rank
  \<open>lo\<close>. The object literal is a snapshot with the empty text, the empty category and
  rank \<open>-1\<close>, and so is every object after \<open>stringify\<close>.
\<close>

definition snapshot :: "heap \<Rightarrow> addr \<Rightarrow> string \<Rightarrow> string \<Rightarrow> int \<Rightarrow> bool" where
  "snapshot h a t s lo =
     (a < length h \<and> cssCode (h ! a) = Some t \<and> lastSelector (h ! a) = Some s
      \<and> lastOrder (h ! a) = Some lo)"

text \<open>The categories that may follow themselves, and the sequences of calls in order.\<close>

definition repeatable :: "call \<Rightarrow> bool" where
  "repeatable c = (selectorOf c \<in> {''class'', ''attr'', ''pseudoClass''})"

fun validSeq :: "call list \<Rightarrow> bool" where
  "validSeq [] = True"
| "validSeq [c] = True"
| "validSeq (c # d # cs) =
     ((rank c < rank d \<or> (rank c = rank d \<and> repeatable c)) \<and> validSeq (d # cs))"

text \<open>The chain followed by \<^verbatim>\<open>.stringify()\<close> on its result.\<close>

definition chainText :: "heap \<Rightarrow> addr \<Rightarrow> call list \<Rightarrow> error + string option" where
  "chainText h this cs =
     (case chain h this cs of
        (Inl e, h') \<Rightarrow> Inl e
      | (Inr a, h') \<Rightarrow> Inr (fst (stringify h' a)))"

text \<open>
  Stores of two small sessions: after \<^verbatim>\<open>cssSelectorBuilder.element('div')\<close>, whose
  result is the object 1, and after \<^verbatim>\<open>cssSelectorBuilder.element('table')\<close> next,
  whose result is the object 2.
\<close>

definition divStore :: heap where
  "divStore = snd (element initHeap cssSelectorBuilder ''div'')"

definition divTableStore :: heap where
  "divTableStore = snd (element divStore cssSelectorBuilder ''table'')"

section \<open>JavaScript values and the JSON built-ins\<close>

text \<open>
  \<^verbatim>\<open>getJSON\<close> and \<^verbatim>\<open>fromJSON\<close> are written over \<^verbatim>\<open>JSON.stringify\<close>,
  \<^verbatim>\<open>JSON.parse\<close>, \<^verbatim>\<open>Object.values\<close> and a constructor call. The built-ins are
  modelled from their documentation, on the values below. An object is the list of its
  own enumerable properties in enumeration order: names that are array indices first, in
  ascending numeric order, then the other names in the order of their creation. \<open>Num\<close>
  holds the numbers that are integers; \<open>NaN\<close> stands for the numbers JSON cannot write
  (\<^verbatim>\<open>NaN\<close> and the infinities) and \<open>Func\<close> for a function. Methods \<^verbatim>\<open>toJSON\<close> and
  the prototype of a nested object are not represented.
\<close>

datatype jsval =
  Undefined | Null | Bool bool | Num int | NaN | Str string | Func
  | Arr "jsval list" | Obj "(string \<times> jsval) list"

text \<open>
  A JSON text is represented by the document it spells. Where a text is expected,
  \<open>None\<close> is a value that is not a JSON text, such as \<^verbatim>\<open>undefined\<close>.
\<close>

datatype json =
  JNull | JBool bool | JNum int | JStr string
  | JArr "json list" | JObj "(string \<times> json) list"

datatype jsError = SyntaxError | TypeError

text \<open>
  An array index is the canonical decimal spelling of an integer from 0 to \<open>2^32 - 2\<close>.
  \<open>goesBefore k k'\<close>: the property \<open>k\<close> is enumerated before an existing property
  \<open>k'\<close> although it is created later.
\<close>

definition isDigit :: "char \<Rightarrow> bool" where
  "isDigit c = (48 \<le> (of_char c :: nat) \<and> (of_char c :: nat) \<le> 57)"

definition decimal :: "string \<Rightarrow> nat" where
  "decimal s = foldl (\<lambda>n c. 10 * n + (of_char c - 48)) 0 s"

definition arrayIndex :: "string \<Rightarrow> nat option" where
  "arrayIndex s =
     (if s \<noteq> [] \<and> list_all isDigit s \<and> (s = ''0'' \<or> hd s \<noteq> CHR ''0'')
         \<and> decimal s \<le> 4294967294
      then Some (decimal s) else None)"

definition goesBefore :: "string \<Rightarrow> string \<Rightarrow> bool" where
  "goesBefore k k' =
     (case arrayIndex k of
        None \<Rightarrow> False
      | Some i \<Rightarrow> (case arrayIndex k' of None \<Rightarrow> True | Some j \<Rightarrow> i < j))"

text \<open>
  Creating or assigning a property: an existing property keeps its place and takes the
  new value, a new one goes to its place in the enumeration order.
\<close>

fun place :: "string \<Rightarrow> 'v \<Rightarrow> (string \<times> 'v) list \<Rightarrow> (string \<times> 'v) list" where
  "place k v [] = [(k, v)]"
| "place k v ((k', v') # kvs) =
     (if goesBefore k k' then (k, v) # (k', v') # kvs else (k', v') # place k v kvs)"

definition defineProperty :: "(string \<times> 'v) list \<Rightarrow> string \<Rightarrow> 'v \<Rightarrow> (string \<times> 'v) list" where
  "defineProperty kvs k v =
     (if k \<in> fst ` set kvs then map (\<lambda>(k', v'). if k' = k then (k', v) else (k', v')) kvs
      else place k v kvs)"

text \<open>
  \<^verbatim>\<open>JSON.stringify(value)\<close>: \<^verbatim>\<open>undefined\<close> and functions have no JSON form: alone
  the result is \<^verbatim>\<open>undefined\<close>, as an array element they are written \<^verbatim>\<open>null\<close>, and a
  property holding one is left out. \<^verbatim>\<open>NaN\<close> and the infinities are written
  \<^verbatim>\<open>null\<close>. Properties are written in enumeration order.
\<close>

fun JSON_stringify :: "jsval \<Rightarrow> json option" where
  "JSON_stringify Undefined = None"
| "JSON_stringify Null = Some JNull"
| "JSON_stringify (Bool b) = Some (JBool b)"
| "JSON_stringify (Num n) = Some (JNum n)"
| "JSON_stringify NaN = Some JNull"
| "JSON_stringify (Str s) = Some (JStr s)"
| "JSON_stringify Func = None"
| "JSON_stringify (Arr xs) =
     Some (JArr (map (\<lambda>x. case JSON_stringify x of None \<Rightarrow> JNull | Some j \<Rightarrow> j) xs))"
| "JSON_stringify (Obj kvs) =
     Some (JObj (concat (map (\<lambda>(k, v). case JSON_stringify v of None \<Rightarrow> [] | Some j \<Rightarrow> [(k, j)]) kvs)))"

text \<open>
  \<^verbatim>\<open>JSON.parse(text)\<close>: a \<^verbatim>\<open>SyntaxError\<close> when the argument is not a JSON text;
  otherwise the value of the document, the members of an object created in the order of
  the text (a repeated name keeps its first place and its last value).
\<close>

fun parseValue :: "json \<Rightarrow> jsval" where
  "parseValue JNull = Null"
| "parseValue (JBool b) = Bool b"
| "parseValue (JNum n) = Num n"
| "parseValue (JStr s) = Str s"
| "parseValue (JArr js) = Arr (map parseValue js)"
| "parseValue (JObj ms) =
     Obj (foldl (\<lambda>obj (k, v). defineProperty obj k v) [] (map (\<lambda>(k, j). (k, parseValue j)) ms))"

definition JSON_parse :: "json option \<Rightarrow> jsError + jsval" where
  "JSON_parse text = (case text of None \<Rightarrow> Inl SyntaxError | Some j \<Rightarrow> Inr (parseValue j))"

text \<open>
  \<^verbatim>\<open>Object.values(obj)\<close>: the values of the own enumerable properties in enumeration
  order. \<^verbatim>\<open>undefined\<close> and \<^verbatim>\<open>null\<close> give a \<^verbatim>\<open>TypeError\<close>, a string gives its
  characters, an array its elements, and the other primitives and a function give the
  empty list.
\<close>

definition Object_values :: "jsval \<Rightarrow> jsError + jsval list" where
  "Object_values obj =
     (case obj of
        Undefined \<Rightarrow> Inl TypeError
      | Null \<Rightarrow> Inl TypeError
      | Bool b \<Rightarrow> Inr []
      | Num n \<Rightarrow> Inr []
      | NaN \<Rightarrow> Inr []
      | Str s \<Rightarrow> Inr (map (\<lambda>c. Str [c]) s)
      | Func \<Rightarrow> Inr []
      | Arr xs \<Rightarrow> Inr xs
      | Obj kvs \<Rightarrow> Inr (map snd kvs))"

section \<open>getJSON and fromJSON\<close>

text \<open>
  The argument \<^verbatim>\<open>proto\<close> of \<^verbatim>\<open>fromJSON\<close> is used for its property
  \<^verbatim>\<open>constructor\<close> only, which \<^verbatim>\<open>new proto.constructor(...values)\<close> calls with the
  values as its arguments, in their order.
\<close>

record 'a prototype =
  constructor :: "jsval list \<Rightarrow> 'a"

definition getJSON :: "jsval \<Rightarrow> json option" where
  "getJSON obj = JSON_stringify obj"

definition fromJSON :: "'a prototype \<Rightarrow> json option \<Rightarrow> jsError + 'a" where
  "fromJSON proto' json =
     (case JSON_parse json of
        Inl e \<Rightarrow> Inl e
      | Inr obj \<Rightarrow>
          (case Object_values obj of
             Inl e \<Rightarrow> Inl e
           | Inr values \<Rightarrow> Inr (constructor proto' values)))"

text \<open>
  The prototype of a type whose constructor stores each parameter under its name, as in
  \<^verbatim>\<open>function Circle(radius) { this.radius = radius; }\<close>: a parameter without an
  argument is \<^verbatim>\<open>undefined\<close>, and arguments beyond the parameters are not used.
\<close>

definition positional :: "string list \<Rightarrow> jsval prototype" where
  "positional params =
     \<lparr>constructor = (\<lambda>args.
        Obj (foldl (\<lambda>obj (k, v). defineProperty obj k v) []
               (zip params (args @ replicate (length params - length args) Undefined))))\<rparr>"

text \<open>
  \<open>enumerated kvs\<close>: the list is the property list of an object, that is, the names are
  distinct and in enumeration order. \<open>plainData v\<close>: the value is JSON data throughout:
  \<^verbatim>\<open>null\<close>, a boolean, a number JSON can write, a string, or an array or object of
  such values.
\<close>

definition enumerated :: "(string \<times> 'v) list \<Rightarrow> bool" where
  "enumerated kvs =
     (distinct (map fst kvs) \<and> sorted_wrt (\<lambda>a b. \<not> goesBefore (fst b) (fst a)) kvs)"

fun plainData :: "jsval \<Rightarrow> bool" where
  "plainData Undefined = False"
| "plainData Null = True"
| "plainData (Bool b) = True"
| "plainData (Num n) = True"
| "plainData NaN = False"
| "plainData (Str s) = True"
| "plainData Func = False"
| "plainData (Arr xs) = (\<forall>x \<in> set xs. plainData x)"
| "plainData (Obj kvs) = (enumerated kvs \<and> (\<forall>(k, v) \<in> set kvs. plainData v))"

section \<open>Properties of Rectangle\<close>

text \<open>
  Claim C10. For all inputs, the object returned by \<open>Rectangle\<close> has the given width
  and height as its fields and its area operation returns their product; no input is
  rejected (there is no error result), whatever its sign. In particular
  \<open>Rectangle 10 20\<close> has area 200, width 10 and height 20.
\<close>

theorem Rectangle_fields_area:
  "width (Rectangle w h) = w \<and> height (Rectangle w h) = h
   \<and> getArea (Rectangle w h) = w * h
   \<and> getArea (Rectangle (10::int) 20) = 200
   \<and> width (Rectangle (10::int) 20) = 10 \<and> height (Rectangle (10::int) 20) = 20
   \<and> getArea (Rectangle (- 3::int) 4) = - 12"
  by (simp add: Rectangle_def getArea_def)

section \<open>Reading and writing the store\<close>

lemma getProp_own: "a < length h \<Longrightarrow> f (h ! a) = Some v \<Longrightarrow> getProp h f a = Some v"
  by (subst getProp.simps) simp

lemma getProp_inherit:
  assumes "this < length h" and "f (h ! this) = Some v" and "f ob = None" and "proto ob = Some this"
  shows "getProp (h @ [ob]) f (length h) = Some v"
proof -
  have "getProp (h @ [ob]) f this = Some v"
    using assms(1,2) by (intro getProp_own) (simp_all add: nth_append)
  then show ?thesis
    using assms by (subst getProp.simps) simp
qed

lemma copyBuilder_eq:
  assumes "snapshot h this t s lo"
  shows "copyBuilder h this v sel =
    (if (sel = ''id'' \<or> sel = ''element'' \<or> sel = ''pseudoElement'') \<and> sel = s then
       (Inl (Error duplicateMessage), h @ [\<lparr>proto = Some this, cssCode = None, lastSelector = None, lastOrder = None\<rparr>])
     else if lo \<noteq> - 1 \<and> indexOf correctOrder sel < lo then
       (Inl (Error orderMessage), h @ [\<lparr>proto = Some this, cssCode = None, lastSelector = None, lastOrder = None\<rparr>])
     else
       (Inr (length h),
        h @ [\<lparr>proto = Some this, cssCode = Some (t @ v), lastSelector = Some sel,
              lastOrder = Some (indexOf correctOrder sel)\<rparr>]))"
proof -
  let ?ob = "\<lparr>proto = Some this, cssCode = None, lastSelector = None, lastOrder = None\<rparr>"
  have ls: "getProp (h @ [?ob]) lastSelector (length h) = Some s"
    using assms by (intro getProp_inherit) (simp_all add: snapshot_def)
  have lo: "getProp (h @ [?ob]) lastOrder (length h) = Some lo"
    using assms by (intro getProp_inherit) (simp_all add: snapshot_def)
  have cc: "getProp (h @ [?ob\<lparr>lastOrder := Some i, lastSelector := Some x\<rparr>]) cssCode (length h) = Some t" for i x
    using assms by (intro getProp_inherit) (simp_all add: snapshot_def)
  show ?thesis
    using ls lo cc
    by (auto simp add: copyBuilder_def Object_create_def getLastElemError_def incorrectOrder_def
        setProp_def toText_def Let_def)
qed

lemma copyBuilder_extends:
  "take (length h) (snd (copyBuilder h this v sel)) = h
   \<and> length (snd (copyBuilder h this v sel)) = Suc (length h)"
  by (simp add: copyBuilder_def Object_create_def setProp_def Let_def)

lemma copyBuilder_old:
  assumes "b < length h"
  shows "snd (copyBuilder h this v sel) ! b = h ! b"
proof -
  have "take (length h) (snd (copyBuilder h this v sel)) ! b = h ! b"
    by (simp only: copyBuilder_extends)
  with assms show ?thesis by simp
qed

lemma stringify_eq:
  assumes "this < length h"
  shows "stringify h this =
    (getProp h cssCode this,
     h[this := (h ! this)\<lparr>cssCode := Some [], lastOrder := Some (- 1), lastSelector := Some []\<rparr>])"
  using assms by (simp add: stringify_def setProp_def Let_def)

lemma stringify_length: "length (snd (stringify h this)) = length h"
  by (simp add: stringify_def setProp_def Let_def)

lemma stringify_other: "b \<noteq> this \<Longrightarrow> snd (stringify h this) ! b = h ! b"
  by (simp add: stringify_def setProp_def Let_def)

lemma stringify_snapshot:
  "this < length h \<Longrightarrow> snapshot (snd (stringify h this)) this [] [] (- 1)"
  by (simp add: stringify_eq snapshot_def)

lemma rank_simps:
  "rank (Element v) = 0" "rank (Id v) = 1" "rank (Class v) = 2"
  "rank (Attr v) = 3" "rank (PseudoClass v) = 4" "rank (PseudoElement v) = 5"
  by (simp_all add: rank_def correctOrder_def)

lemma invoke_copyBuilder: "invoke h this c = copyBuilder h this (fragment c) (selectorOf c)"
  by (cases c)
    (simp_all add: element_def idSel_def classSel_def attr_def pseudoClass_def pseudoElement_def)

lemma selectorOf_eq_iff: "selectorOf c = selectorOf d \<longleftrightarrow> rank c = rank d"
  by (cases c; cases d) (simp_all add: rank_simps)

section \<open>The example stores, evaluated\<close>

lemma base_snapshot: "snapshot initHeap cssSelectorBuilder [] [] (- 1)"
  by (simp add: snapshot_def initHeap_def cssSelectorBuilder_def)

lemma divStore_eq:
  "element initHeap cssSelectorBuilder ''div'' =
     (Inr 1, [\<lparr>proto = None, cssCode = Some [], lastSelector = Some [], lastOrder = Some (- 1)\<rparr>,
       \<lparr>proto = Some 0, cssCode = Some ''div'', lastSelector = Some ''element'', lastOrder = Some 0\<rparr>])"
  by (simp add: element_def copyBuilder_eq [OF base_snapshot] correctOrder_def)
    (simp add: initHeap_def cssSelectorBuilder_def)

lemma divStore_val:
  "divStore = [\<lparr>proto = None, cssCode = Some [], lastSelector = Some [], lastOrder = Some (- 1)\<rparr>,
       \<lparr>proto = Some 0, cssCode = Some ''div'', lastSelector = Some ''element'', lastOrder = Some 0\<rparr>]"
  by (simp add: divStore_def divStore_eq)

lemma divStore_snapshots:
  "snapshot divStore cssSelectorBuilder [] [] (- 1)" "snapshot divStore 1 ''div'' ''element'' 0"
  by (simp_all add: divStore_val snapshot_def cssSelectorBuilder_def)

lemma divTableStore_eq:
  "element divStore cssSelectorBuilder ''table'' =
     (Inr 2, [\<lparr>proto = None, cssCode = Some [], lastSelector = Some [], lastOrder = Some (- 1)\<rparr>,
       \<lparr>proto = Some 0, cssCode = Some ''div'', lastSelector = Some ''element'', lastOrder = Some 0\<rparr>,
       \<lparr>proto = Some 0, cssCode = Some ''table'', lastSelector = Some ''element'', lastOrder = Some 0\<rparr>])"
  by (simp add: element_def copyBuilder_eq [OF divStore_snapshots(1)] correctOrder_def)
    (simp add: divStore_val cssSelectorBuilder_def)

lemma divTableStore_val:
  "divTableStore = [\<lparr>proto = None, cssCode = Some [], lastSelector = Some [], lastOrder = Some (- 1)\<rparr>,
       \<lparr>proto = Some 0, cssCode = Some ''div'', lastSelector = Some ''element'', lastOrder = Some 0\<rparr>,
       \<lparr>proto = Some 0, cssCode = Some ''table'', lastSelector = Some ''element'', lastOrder = Some 0\<rparr>]"
  by (simp add: divTableStore_def divTableStore_eq)

lemma divTableStore_snapshots:
  "snapshot divTableStore cssSelectorBuilder [] [] (- 1)"
  "snapshot divTableStore 1 ''div'' ''element'' 0"
  "snapshot divTableStore 2 ''table'' ''element'' 0"
  by (simp_all add: divTableStore_val snapshot_def cssSelectorBuilder_def)

section \<open>What stringify changes\<close>

text \<open>
  The receiver of \<open>stringify\<close> is the object the assignments go to. On the object
  returned by \<^verbatim>\<open>cssSelectorBuilder.element('div')\<close>, \<open>stringify\<close> returns the text
  \<^verbatim>\<open>div\<close> and leaves that object with the empty text and no last category: its own
  accumulated text and category state are not unchanged.
\<close>

theorem stringify_clears_receiver_example:
  "fst (element initHeap cssSelectorBuilder ''div'') = Inr 1
   \<and> cssCode (divStore ! 1) = Some ''div''
   \<and> lastSelector (divStore ! 1) = Some ''element''
   \<and> fst (stringify divStore 1) = Some ''div''
   \<and> cssCode (snd (stringify divStore 1) ! 1) = Some []
   \<and> \<not> (cssCode (snd (stringify divStore 1) ! 1) = cssCode (divStore ! 1)
         \<and> lastSelector (snd (stringify divStore 1) ! 1) = lastSelector (divStore ! 1)
         \<and> lastOrder (snd (stringify divStore 1) ! 1) = lastOrder (divStore ! 1))"
  by (simp add: divStore_eq stringify_eq divStore_val getProp_own)

text \<open>
  Claim C1, as the code has it. \<open>stringify\<close> returns the accumulated text of the
  snapshot it is called on, and its reset acts on that snapshot, the receiver: afterwards
  the receiver owns the empty text, the empty last category and the rank \<open>-1\<close>, and its
  prototype link is as before. Every other object of the store, the shared entry point
  included, is unchanged, and no object is allocated.
\<close>

theorem stringify_resets_receiver_only:
  assumes "snapshot h this t s lo"
  shows "fst (stringify h this) = Some t
    \<and> snapshot (snd (stringify h this)) this [] [] (- 1)
    \<and> proto (snd (stringify h this) ! this) = proto (h ! this)
    \<and> length (snd (stringify h this)) = length h
    \<and> (\<forall>b. b \<noteq> this \<longrightarrow> snd (stringify h this) ! b = h ! b)"
proof -
  from assms have lt: "this < length h" and own: "cssCode (h ! this) = Some t"
    by (simp_all add: snapshot_def)
  have "fst (stringify h this) = Some t"
    using lt own by (simp add: stringify_eq getProp_own)
  moreover have "snapshot (snd (stringify h this)) this [] [] (- 1)"
    using lt by (rule stringify_snapshot)
  moreover have "proto (snd (stringify h this) ! this) = proto (h ! this)"
    using lt by (simp add: stringify_eq)
  ultimately show ?thesis
    by (simp add: stringify_length stringify_other)
qed

theorem stringify_resets_receiver_only_witness:
  "snapshot divTableStore 1 ''div'' ''element'' 0
   \<and> fst (stringify divTableStore 1) = Some ''div''
   \<and> snapshot (snd (stringify divTableStore 1)) 1 [] [] (- 1)
   \<and> snd (stringify divTableStore 1) ! cssSelectorBuilder = divTableStore ! cssSelectorBuilder
   \<and> snd (stringify divTableStore 1) ! 2 = divTableStore ! 2"
proof -
  have snap: "snapshot divTableStore 1 ''div'' ''element'' 0"
    by (rule divTableStore_snapshots)
  show ?thesis
    using snap stringify_resets_receiver_only [OF snap] by (simp add: cssSelectorBuilder_def)
qed

section \<open>The two checks of copyBuilder\<close>

text \<open>The definitions to unfold when a session is evaluated on a given store.\<close>

lemmas builder_defs =
  element_def idSel_def classSel_def attr_def pseudoClass_def pseudoElement_def
  copyBuilder_def Object_create_def getLastElemError_def incorrectOrder_def setProp_def
  toText_def Let_def getProp.simps correctOrder_def initHeap_def cssSelectorBuilder_def
  stringify_def combine_def chainText_def

lemma invoke_eq:
  assumes "snapshot h this t s lo"
  shows "invoke h this c =
    (if (selectorOf c = ''id'' \<or> selectorOf c = ''element'' \<or> selectorOf c = ''pseudoElement'')
        \<and> selectorOf c = s then
       (Inl (Error duplicateMessage), h @ [\<lparr>proto = Some this, cssCode = None, lastSelector = None, lastOrder = None\<rparr>])
     else if lo \<noteq> - 1 \<and> rank c < lo then
       (Inl (Error orderMessage), h @ [\<lparr>proto = Some this, cssCode = None, lastSelector = None, lastOrder = None\<rparr>])
     else
       (Inr (length h),
        h @ [\<lparr>proto = Some this, cssCode = Some (t @ fragment c), lastSelector = Some (selectorOf c),
              lastOrder = Some (rank c)\<rparr>]))"
  unfolding invoke_copyBuilder rank_def by (rule copyBuilder_eq [OF assms])

lemma messages_differ: "duplicateMessage \<noteq> orderMessage"
  by (simp add: duplicateMessage_def orderMessage_def)

lemma rank_range: "0 \<le> rank c \<and> rank c \<le> 5"
  by (cases c) (simp_all add: rank_simps)

lemma invoke_snapshot:
  assumes "snapshot h this t s lo" and "fst (invoke h this c) = Inr a"
  shows "a = length h \<and> snapshot (snd (invoke h this c)) a (t @ fragment c) (selectorOf c) (rank c)
    \<and> proto (snd (invoke h this c) ! a) = Some this"
  using assms(2) unfolding invoke_eq [OF assms(1)]
  by (auto simp add: snapshot_def split: if_splits)

text \<open>
  The chain \<^verbatim>\<open>element('div').id('x').element('span')\<close> on the entry point does not
  end in the error of the repeated part.
\<close>

theorem element_id_element_not_duplicate_error:
  "fst (chain initHeap cssSelectorBuilder [Element ''div'', Id ''x'', Element ''span''])
     \<noteq> Inl (Error duplicateMessage)"
  by (simp add: builder_defs duplicateMessage_def orderMessage_def)

text \<open>
  Claim C2, as the code has it. The chain \<^verbatim>\<open>element(v1).id(v2)\<close> on the entry point
  succeeds, and \<^verbatim>\<open>.element(v3)\<close> on its result fails with the error of the order of
  the parts: the last category is \<^verbatim>\<open>id\<close>, not \<^verbatim>\<open>element\<close>, so the check for a
  repeated part does not fire, and the rank of \<^verbatim>\<open>element\<close> is below the rank of
  \<^verbatim>\<open>id\<close>.
\<close>

theorem element_id_element_order_error:
  "fst (chain initHeap cssSelectorBuilder [Element v1, Id v2]) = Inr 2
   \<and> fst (chain initHeap cssSelectorBuilder [Element v1, Id v2, Element v3])
       = Inl (Error orderMessage)"
  by (simp add: builder_defs)

text \<open>
  Claim C4. On a snapshot whose last appended category is that of a call \<open>p\<close>, a call
  of strictly smaller rank fails with the error of the order of the parts; for a call of
  greater or equal rank the ordering check on the fresh copy is false and the call does
  not fail with that error. In particular \<^verbatim>\<open>class('a').id('b')\<close> on the entry point
  fails with the error of the order of the parts.
\<close>

theorem lower_rank_fails_order_check:
  assumes "snapshot h this t (selectorOf p) (rank p)"
  shows "(rank c < rank p \<longrightarrow> fst (invoke h this c) = Inl (Error orderMessage))
    \<and> (rank p \<le> rank c \<longrightarrow>
          \<not> incorrectOrder (snd (Object_create h this)) (fst (Object_create h this)) (selectorOf c)
          \<and> fst (invoke h this c) \<noteq> Inl (Error orderMessage))
    \<and> fst (chain initHeap cssSelectorBuilder [Class ''a'', Id ''b'']) = Inl (Error orderMessage)"
proof -
  have lo: "getProp (snd (Object_create h this)) lastOrder (fst (Object_create h this)) = Some (rank p)"
    using assms unfolding Object_create_def fst_conv snd_conv
    by (intro getProp_inherit) (simp_all add: snapshot_def)
  have low: "fst (invoke h this c) = Inl (Error orderMessage)" if "rank c < rank p"
  proof -
    from that have "selectorOf c \<noteq> selectorOf p"
      by (simp add: selectorOf_eq_iff)
    moreover from that rank_range [of c] have "rank p \<noteq> - 1"
      by arith
    ultimately show ?thesis
      using that by (simp add: invoke_eq [OF assms] del: invoke.simps)
  qed
  have high: "\<not> incorrectOrder (snd (Object_create h this)) (fst (Object_create h this)) (selectorOf c)
      \<and> fst (invoke h this c) \<noteq> Inl (Error orderMessage)" if "rank p \<le> rank c"
    using that lo messages_differ
    by (auto simp add: incorrectOrder_def rank_def invoke_eq [OF assms] simp del: invoke.simps)
  have "fst (chain initHeap cssSelectorBuilder [Class ''a'', Id ''b'']) = Inl (Error orderMessage)"
    by (simp add: builder_defs)
  with low high show ?thesis
    by blast
qed

theorem lower_rank_fails_order_check_witness:
  "snapshot divStore 1 ''div'' (selectorOf (Element ''div'')) (rank (Element ''div''))
   \<and> rank (Element ''div'') \<le> rank (Class ''a'')
   \<and> fst (invoke divStore 1 (Class ''a'')) \<noteq> Inl (Error orderMessage)
   \<and> snapshot (snd (invoke divStore 1 (Class ''a''))) 2 ''div.a'' (selectorOf (Class ''a'')) (rank (Class ''a''))
   \<and> rank (Id ''b'') < rank (Class ''a'')
   \<and> fst (invoke (snd (invoke divStore 1 (Class ''a''))) 2 (Id ''b'')) = Inl (Error orderMessage)"
proof -
  have s1: "snapshot divStore 1 ''div'' (selectorOf (Element ''div'')) (rank (Element ''div''))"
    using divStore_snapshots(2) by (simp add: rank_simps)
  have s2: "snapshot (snd (invoke divStore 1 (Class ''a''))) 2 ''div.a''
      (selectorOf (Class ''a'')) (rank (Class ''a''))"
    by (simp add: snapshot_def divStore_val builder_defs rank_simps)
  show ?thesis
    using s1 s2 lower_rank_fails_order_check [OF s1, of "Class ''a''"]
      lower_rank_fails_order_check [OF s2, of "Id ''b''"]
    by (simp add: rank_simps del: invoke.simps)
qed

text \<open>
  Claim C5. On a snapshot whose last appended category is the category of the call, the
  call fails with the error of the repeated part exactly when the category is
  \<^verbatim>\<open>element\<close>, \<^verbatim>\<open>id\<close> or \<^verbatim>\<open>pseudoElement\<close>; for \<^verbatim>\<open>class\<close>, \<^verbatim>\<open>attr\<close> and
  \<^verbatim>\<open>pseudoClass\<close> it succeeds and returns a new snapshot with the fragment appended.
\<close>

theorem repeat_fails_for_singletons_only:
  assumes "snapshot h this t (selectorOf c) (rank c)"
  shows "(fst (invoke h this c) = Inl (Error duplicateMessage)
          \<longleftrightarrow> selectorOf c \<in> {''element'', ''id'', ''pseudoElement''})
    \<and> (selectorOf c \<in> {''class'', ''attr'', ''pseudoClass''} \<longrightarrow>
          fst (invoke h this c) = Inr (length h)
          \<and> snapshot (snd (invoke h this c)) (length h) (t @ fragment c) (selectorOf c) (rank c))"
  using messages_differ
  by (cases c) (simp_all add: invoke_eq [OF assms] snapshot_def del: invoke.simps)

theorem repeat_fails_for_singletons_only_witness:
  "snapshot divStore 1 ''div'' (selectorOf (Element ''p'')) (rank (Element ''p''))
   \<and> fst (invoke divStore 1 (Element ''p'')) = Inl (Error duplicateMessage)
   \<and> snapshot (snd (invoke divStore 1 (Class ''a''))) 2 ''div.a'' (selectorOf (Class ''b'')) (rank (Class ''b''))
   \<and> fst (invoke (snd (invoke divStore 1 (Class ''a''))) 2 (Class ''b'')) = Inr 3
   \<and> snapshot (snd (invoke (snd (invoke divStore 1 (Class ''a''))) 2 (Class ''b''))) 3
        ''div.a.b'' ''class'' 2"
proof -
  have s1: "snapshot divStore 1 ''div'' (selectorOf (Element ''p'')) (rank (Element ''p''))"
    using divStore_snapshots(2) by (simp add: rank_simps)
  have s2: "snapshot (snd (invoke divStore 1 (Class ''a''))) 2 ''div.a''
      (selectorOf (Class ''b'')) (rank (Class ''b''))"
    by (simp add: snapshot_def divStore_val builder_defs rank_simps)
  have len: "length (snd (invoke divStore 1 (Class ''a''))) = 3"
    by (simp add: divStore_val builder_defs)
  show ?thesis
    using s1 s2 len repeat_fails_for_singletons_only [OF s1]
      repeat_fails_for_singletons_only [OF s2]
    by (simp add: rank_simps del: invoke.simps)
qed

section \<open>Chains in order\<close>

lemma invoke_accepted:
  assumes "snapshot h this t s lo"
    and "selectorOf c \<noteq> s \<or> repeatable c" and "lo = - 1 \<or> lo \<le> rank c"
  shows "invoke h this c =
    (Inr (length h),
     h @ [\<lparr>proto = Some this, cssCode = Some (t @ fragment c), lastSelector = Some (selectorOf c),
           lastOrder = Some (rank c)\<rparr>])"
  using assms(2,3) unfolding invoke_eq [OF assms(1)]
  by (auto simp add: repeatable_def)

lemma snapshot_new:
  "snapshot (h @ [\<lparr>proto = p, cssCode = Some t, lastSelector = Some s, lastOrder = Some lo\<rparr>])
     (length h) t s lo"
  by (simp add: snapshot_def)

lemma chain_valid_from:
  assumes "snapshot h this t (selectorOf p) (rank p)" and "validSeq (p # cs)"
  shows "\<exists>a h' s lo. chain h this cs = (Inr a, h')
           \<and> snapshot h' a (t @ concat (map fragment cs)) s lo"
  using assms
proof (induction cs arbitrary: h this t p)
  case Nil
  then show ?case by auto
next
  case (Cons c cs)
  let ?h = "h @ [\<lparr>proto = Some this, cssCode = Some (t @ fragment c),
    lastSelector = Some (selectorOf c), lastOrder = Some (rank c)\<rparr>]"
  from Cons.prems(2) have step: "rank p < rank c \<or> (rank p = rank c \<and> repeatable p)"
    and rest: "validSeq (c # cs)"
    by simp_all
  from step have "selectorOf c \<noteq> selectorOf p \<or> repeatable c"
    by (cases p; cases c) (simp_all add: rank_simps repeatable_def)
  moreover from step have "rank p = - 1 \<or> rank p \<le> rank c"
    by auto
  ultimately have inv: "invoke h this c = (Inr (length h), ?h)"
    by (rule invoke_accepted [OF Cons.prems(1)])
  have "snapshot ?h (length h) (t @ fragment c) (selectorOf c) (rank c)"
    by (rule snapshot_new)
  from Cons.IH [OF this rest] obtain a h' s lo
    where "chain ?h (length h) cs = (Inr a, h')"
      and "snapshot h' a ((t @ fragment c) @ concat (map fragment cs)) s lo"
    by blast
  then show ?case
    using inv by (auto simp del: invoke.simps)
qed

lemma chain_valid_reset:
  assumes "snapshot h this t [] (- 1)" and "validSeq cs"
  shows "\<exists>a h' s lo. chain h this cs = (Inr a, h')
           \<and> snapshot h' a (t @ concat (map fragment cs)) s lo"
proof (cases cs)
  case Nil
  with assms(1) show ?thesis by auto
next
  case (Cons c cs')
  let ?h = "h @ [\<lparr>proto = Some this, cssCode = Some (t @ fragment c),
    lastSelector = Some (selectorOf c), lastOrder = Some (rank c)\<rparr>]"
  have "selectorOf c \<noteq> []"
    by (cases c) simp_all
  then have inv: "invoke h this c = (Inr (length h), ?h)"
    by (intro invoke_accepted [OF assms(1)]) simp_all
  have "snapshot ?h (length h) (t @ fragment c) (selectorOf c) (rank c)"
    by (rule snapshot_new)
  from chain_valid_from [OF this] assms(2) Cons obtain a h' s lo
    where "chain ?h (length h) cs' = (Inr a, h')"
      and "snapshot h' a ((t @ fragment c) @ concat (map fragment cs')) s lo"
    by blast
  then show ?thesis
    using inv Cons by (auto simp del: invoke.simps)
qed

lemma stringify_text: "snapshot h a t s lo \<Longrightarrow> fst (stringify h a) = Some t"
  by (simp add: snapshot_def stringify_eq getProp_own)

text \<open>
  Claim C6. On an object in the initial state (the entry point), a sequence of calls
  whose ranks never decrease, with equal neighbours only among \<^verbatim>\<open>class\<close>, \<^verbatim>\<open>attr\<close>
  and \<^verbatim>\<open>pseudoClass\<close>, succeeds, and \<open>stringify\<close> on its result returns the fragments
  of the calls concatenated in call order, with nothing between them. The two chains of
  the documentation give \<^verbatim>\<open>#main.container.editable\<close> and
  \<^verbatim>\<open>a[href$=".png"]:focus\<close>.
\<close>

theorem valid_chain_text:
  assumes "snapshot h this [] [] (- 1)" and "validSeq cs"
  shows "chainText h this cs = Inr (Some (concat (map fragment cs)))
    \<and> chainText initHeap cssSelectorBuilder
          [Id ''main'', Class ''container'', Class ''editable'']
        = Inr (Some ''#main.container.editable'')
    \<and> chainText initHeap cssSelectorBuilder
          [Element ''a'', Attr ''href$=\".png\"'', PseudoClass ''focus'']
        = Inr (Some ''a[href$=\".png\"]:focus'')"
proof -
  from chain_valid_reset [OF assms] obtain a h' s lo
    where "chain h this cs = (Inr a, h')" and "snapshot h' a (concat (map fragment cs)) s lo"
    by auto
  then have "chainText h this cs = Inr (Some (concat (map fragment cs)))"
    by (simp add: chainText_def stringify_text)
  moreover have "chainText initHeap cssSelectorBuilder
      [Id ''main'', Class ''container'', Class ''editable'']
      = Inr (Some ''#main.container.editable'')"
    by (simp add: builder_defs)
  moreover have "chainText initHeap cssSelectorBuilder
      [Element ''a'', Attr ''href$=\".png\"'', PseudoClass ''focus'']
      = Inr (Some ''a[href$=\".png\"]:focus'')"
    by (simp add: builder_defs)
  ultimately show ?thesis
    by blast
qed

theorem valid_chain_text_witness:
  "snapshot initHeap cssSelectorBuilder [] [] (- 1)
   \<and> validSeq [Element ''div'', Id ''main'', Class ''container'', Class ''draggable'',
        Attr ''title'', PseudoClass ''hover'', PseudoClass ''focus'', PseudoElement ''after'']
   \<and> chainText initHeap cssSelectorBuilder
        [Element ''div'', Id ''main'', Class ''container'', Class ''draggable'',
         Attr ''title'', PseudoClass ''hover'', PseudoClass ''focus'', PseudoElement ''after'']
      = Inr (Some ''div#main.container.draggable[title]:hover:focus::after'')"
proof -
  have v: "validSeq [Element ''div'', Id ''main'', Class ''container'', Class ''draggable'',
        Attr ''title'', PseudoClass ''hover'', PseudoClass ''focus'', PseudoElement ''after'']"
    by (simp add: rank_simps repeatable_def)
  show ?thesis
    using base_snapshot v valid_chain_text [OF base_snapshot v]
    by simp
qed

section \<open>What combine reads and what it changes\<close>

lemma combine_eq:
  "combine h this l c r =
     copyBuilder (snd (stringify (snd (stringify h l)) r)) this
       (toText (fst (stringify h l)) @ '' '' @ c @ '' ''
          @ toText (fst (stringify (snd (stringify h l)) r))) []"
  by (simp add: combine_def split: prod.splits)

lemma snapshot_stringify_other:
  "b \<noteq> this \<Longrightarrow> snapshot h b t s lo \<Longrightarrow> snapshot (snd (stringify h this)) b t s lo"
  by (simp add: snapshot_def stringify_length stringify_other)

lemma snapshot_copyBuilder:
  "snapshot h b t s lo \<Longrightarrow> snapshot (snd (copyBuilder h this v sel)) b t s lo"
  by (simp add: snapshot_def copyBuilder_old copyBuilder_extends)

lemma stringify_twice_snapshots:
  assumes "l < length h" and "r < length h"
  shows "snapshot (snd (stringify (snd (stringify h l)) r)) l [] [] (- 1)"
    and "snapshot (snd (stringify (snd (stringify h l)) r)) r [] [] (- 1)"
proof -
  have l1: "snapshot (snd (stringify h l)) l [] [] (- 1)"
    using assms(1) by (rule stringify_snapshot)
  have r1: "r < length (snd (stringify h l))"
    using assms(2) by (simp add: stringify_length)
  then show "snapshot (snd (stringify (snd (stringify h l)) r)) r [] [] (- 1)"
    by (rule stringify_snapshot)
  then show "snapshot (snd (stringify (snd (stringify h l)) r)) l [] [] (- 1)"
    using l1 by (cases "l = r") (simp_all add: snapshot_stringify_other)
qed

text \<open>
  Claim C9. \<open>combine\<close> consumes its two arguments: whatever the receiver and the
  combinator, and whether or not the final \<open>copyBuilder\<close> succeeds, afterwards both
  argument objects own the empty text, the empty last category and the rank \<open>-1\<close>, so
  \<open>stringify\<close> on either of them returns the empty string.
\<close>

theorem combine_consumes_arguments:
  assumes "l < length h" and "r < length h"
  shows "snapshot (snd (combine h this l c r)) l [] [] (- 1)
    \<and> snapshot (snd (combine h this l c r)) r [] [] (- 1)
    \<and> fst (stringify (snd (combine h this l c r)) l) = Some []
    \<and> fst (stringify (snd (combine h this l c r)) r) = Some []"
proof -
  have "snapshot (snd (combine h this l c r)) l [] [] (- 1)"
    unfolding combine_eq
    by (intro snapshot_copyBuilder stringify_twice_snapshots assms)
  moreover have "snapshot (snd (combine h this l c r)) r [] [] (- 1)"
    unfolding combine_eq
    by (intro snapshot_copyBuilder stringify_twice_snapshots assms)
  ultimately show ?thesis
    by (simp add: stringify_text)
qed

theorem combine_consumes_arguments_witness:
  "(1::nat) < length divTableStore \<and> (2::nat) < length divTableStore
   \<and> fst (stringify divTableStore 1) = Some ''div''
   \<and> fst (stringify divTableStore 2) = Some ''table''
   \<and> fst (combine divTableStore cssSelectorBuilder 1 ''+'' 2) = Inr 3
   \<and> snapshot (snd (combine divTableStore cssSelectorBuilder 1 ''+'' 2)) 1 [] [] (- 1)
   \<and> snapshot (snd (combine divTableStore cssSelectorBuilder 1 ''+'' 2)) 2 [] [] (- 1)
   \<and> fst (stringify (snd (combine divTableStore cssSelectorBuilder 1 ''+'' 2)) 1) = Some []
   \<and> fst (stringify (snd (combine divTableStore cssSelectorBuilder 1 ''+'' 2)) 2) = Some []"
proof -
  have l: "(1::nat) < length divTableStore" and r: "(2::nat) < length divTableStore"
    by (simp_all add: divTableStore_val)
  have "fst (stringify divTableStore 1) = Some ''div''"
    and "fst (stringify divTableStore 2) = Some ''table''"
    and "fst (combine divTableStore cssSelectorBuilder 1 ''+'' 2) = Inr 3"
    by (simp_all add: divTableStore_val builder_defs)
  then show ?thesis
    using l r combine_consumes_arguments [OF l r, of cssSelectorBuilder "''+''"]
    by simp
qed

text \<open>
  When the same object is passed as both arguments, the first \<open>stringify\<close> has emptied
  it before the second reads it: with \<^verbatim>\<open>a = cssSelectorBuilder.element('div')\<close>,
  \<^verbatim>\<open>combine(a, '+', a)\<close> has the text \<^verbatim>\<open>div + \<close> and not the text of the left, the
  combinator and the text of the right.
\<close>

theorem combine_same_object_example:
  "fst (stringify divStore 1) = Some ''div''
   \<and> fst (combine divStore cssSelectorBuilder 1 ''+'' 1) = Inr 2
   \<and> fst (stringify (snd (combine divStore cssSelectorBuilder 1 ''+'' 1)) 2) = Some ''div + ''
   \<and> fst (stringify (snd (combine divStore cssSelectorBuilder 1 ''+'' 1)) 2)
       \<noteq> Some (''div'' @ '' '' @ ''+'' @ '' '' @ ''div'')"
  by (simp add: divStore_val builder_defs)

text \<open>
  Claim C7, as the code has it. Called on the entry point (an object in the initial
  state) with two snapshots, \<open>combine\<close> succeeds and returns a new object whose text,
  also as returned by \<open>stringify\<close>, is the text of the left argument, a space, the
  combinator as given, a space, and the text of the right argument when the two arguments
  are different objects; when they are the same object the part after the second space is
  empty. The new object has the empty last category and the rank \<open>-1\<close>: the fragment
  carries no category and neither check rejects it. For \<^verbatim>\<open>element('div')\<close>, \<^verbatim>\<open>+\<close> and
  \<^verbatim>\<open>element('table')\<close> the text is \<^verbatim>\<open>div + table\<close>.
\<close>

theorem combine_text:
  assumes "snapshot h this [] [] (- 1)"
    and "snapshot h l t1 s1 o1" and "snapshot h r t2 s2 o2"
  shows "fst (combine h this l c r) = Inr (length h)
    \<and> snapshot (snd (combine h this l c r)) (length h)
         (t1 @ '' '' @ c @ '' '' @ (if l = r then [] else t2)) [] (- 1)
    \<and> fst (stringify (snd (combine h this l c r)) (length h))
         = Some (t1 @ '' '' @ c @ '' '' @ (if l = r then [] else t2))
    \<and> fst (stringify (snd (combine divTableStore cssSelectorBuilder 1 ''+'' 2)) 3)
         = Some ''div + table''"
proof -
  let ?h1 = "snd (stringify h l)"
  let ?h2 = "snd (stringify ?h1 r)"
  let ?txt = "t1 @ '' '' @ c @ '' '' @ (if l = r then [] else t2)"
  from assms have lt: "this < length h" "l < length h" "r < length h"
    by (simp_all add: snapshot_def)
  have sel1: "fst (stringify h l) = Some t1"
    using assms(2) by (rule stringify_text)
  have "snapshot ?h1 r (if l = r then [] else t2) (if l = r then [] else s2)
      (if l = r then - 1 else o2)"
    using assms(3) stringify_snapshot [OF lt(2)]
    by (cases "l = r") (simp_all add: snapshot_stringify_other)
  then have sel2: "fst (stringify ?h1 r) = Some (if l = r then [] else t2)"
    by (rule stringify_text)
  have len: "length ?h2 = length h"
    by (simp add: stringify_length)
  have this2: "snapshot ?h2 this [] [] (- 1)"
  proof (cases "this = l \<or> this = r")
    case True
    then show ?thesis
      using stringify_twice_snapshots [OF lt(2,3)] by auto
  next
    case False
    then show ?thesis
      using assms(1) by (simp add: snapshot_stringify_other)
  qed
  have comb: "combine h this l c r =
      (Inr (length h),
       ?h2 @ [\<lparr>proto = Some this, cssCode = Some ?txt, lastSelector = Some [],
               lastOrder = Some (indexOf correctOrder [])\<rparr>])"
    unfolding combine_eq copyBuilder_eq [OF this2] sel1 sel2
    by (simp add: len toText_def)
  have "indexOf correctOrder [] = - 1"
    by (simp add: correctOrder_def)
  with comb have snap: "snapshot (snd (combine h this l c r)) (length h) ?txt [] (- 1)"
    using snapshot_new [of ?h2 "Some this" ?txt "[]" "- 1"] by (simp add: len)
  moreover have "fst (stringify (snd (combine divTableStore cssSelectorBuilder 1 ''+'' 2)) 3)
      = Some ''div + table''"
    by (simp add: divTableStore_val builder_defs)
  ultimately show ?thesis
    using comb stringify_text [OF snap] by simp
qed

theorem combine_text_witness:
  "snapshot divTableStore cssSelectorBuilder [] [] (- 1)
   \<and> snapshot divTableStore 1 ''div'' ''element'' 0
   \<and> snapshot divTableStore 2 ''table'' ''element'' 0
   \<and> fst (combine divTableStore cssSelectorBuilder 1 ''~'' 2) = Inr 3
   \<and> fst (stringify (snd (combine divTableStore cssSelectorBuilder 1 ''~'' 2)) 3)
       = Some ''div ~ table''"
proof -
  have b: "snapshot divTableStore cssSelectorBuilder [] [] (- 1)"
    and l: "snapshot divTableStore 1 ''div'' ''element'' 0"
    and r: "snapshot divTableStore 2 ''table'' ''element'' 0"
    by (rule divTableStore_snapshots)+
  have "length divTableStore = 3"
    by (simp add: divTableStore_val)
  then show ?thesis
    using b l r combine_text [OF b l r, of "''~''"] by simp
qed

section \<open>Which objects a call changes\<close>

lemma invoke_extends:
  "take (length h) (snd (invoke h this c)) = h
   \<and> length (snd (invoke h this c)) = Suc (length h)"
  unfolding invoke_copyBuilder by (rule copyBuilder_extends)

lemma chain_extends:
  "take (length h) (snd (chain h this cs)) = h \<and> length h \<le> length (snd (chain h this cs))"
proof (induction cs arbitrary: h this)
  case Nil
  show ?case by simp
next
  case (Cons c cs)
  obtain res h1 where inv: "invoke h this c = (res, h1)"
    by (cases "invoke h this c")
  with invoke_extends [of h this c]
  have h1: "take (length h) h1 = h" "length h1 = Suc (length h)"
    by simp_all
  show ?case
  proof (cases res)
    case (Inl e)
    with inv h1 show ?thesis
      by (simp del: invoke.simps)
  next
    case (Inr a)
    from Cons.IH [of h1 a]
    have "take (length h1) (snd (chain h1 a cs)) = h1"
      and "length h1 \<le> length (snd (chain h1 a cs))"
      by simp_all
    have "take (length h) (take (length h1) (snd (chain h1 a cs)))
        = take (length h) (snd (chain h1 a cs))"
      by (simp add: h1(2))
    with \<open>take (length h1) (snd (chain h1 a cs)) = h1\<close>
    have "take (length h) (snd (chain h1 a cs)) = take (length h) h1"
      by simp
    with Inr inv h1 \<open>length h1 \<le> length (snd (chain h1 a cs))\<close> show ?thesis
      by (simp del: invoke.simps)
  qed
qed

lemma combine_old:
  assumes "b < length h" and "b \<noteq> l" and "b \<noteq> r"
  shows "snd (combine h this l c r) ! b = h ! b"
proof -
  have "b < length (snd (stringify (snd (stringify h l)) r))"
    using assms(1) by (simp add: stringify_length)
  then have "snd (combine h this l c r) ! b = snd (stringify (snd (stringify h l)) r) ! b"
    unfolding combine_eq by (rule copyBuilder_old)
  also have "\<dots> = h ! b"
    using assms(2,3) by (simp add: stringify_other)
  finally show ?thesis .
qed

text \<open>
  A snapshot can change after its creation: \<open>combine\<close> calls \<open>stringify\<close> on its
  arguments, and the object returned by \<^verbatim>\<open>cssSelectorBuilder.element('div')\<close> has the
  text \<^verbatim>\<open>div\<close> before it is passed to \<open>combine\<close> and the empty text afterwards.
\<close>

theorem combine_mutates_argument_example:
  "fst (element initHeap cssSelectorBuilder ''div'') = Inr 1
   \<and> cssCode (divTableStore ! 1) = Some ''div''
   \<and> lastSelector (divTableStore ! 1) = Some ''element''
   \<and> fst (combine divTableStore cssSelectorBuilder 1 ''+'' 2) = Inr 3
   \<and> cssCode (snd (combine divTableStore cssSelectorBuilder 1 ''+'' 2) ! 1) = Some []
   \<and> \<not> (cssCode (snd (combine divTableStore cssSelectorBuilder 1 ''+'' 2) ! 1)
           = cssCode (divTableStore ! 1)
         \<and> lastSelector (snd (combine divTableStore cssSelectorBuilder 1 ''+'' 2) ! 1)
           = lastSelector (divTableStore ! 1))"
  by (simp add: divStore_eq divTableStore_val builder_defs)

text \<open>
  Claim C3, as the code has it. The six chaining methods never change an object that
  exists: after a call, and after a whole chain, the store up to its former length is the
  former store, and a successful call returns a new object, derived from the receiver,
  whose text is the receiver's text followed by the new fragment and whose last category
  and rank are those of the call. \<open>stringify\<close> changes no object other than its
  receiver, and \<open>combine\<close> changes no existing object other than its two arguments.
\<close>

theorem existing_objects_frame:
  "take (length h) (snd (invoke h this c)) = h
   \<and> take (length h) (snd (chain h this cs)) = h
   \<and> (snapshot h this t s lo \<longrightarrow> fst (invoke h this c) = Inr a \<longrightarrow>
        a = length h
        \<and> snapshot (snd (invoke h this c)) a (t @ fragment c) (selectorOf c) (rank c)
        \<and> proto (snd (invoke h this c) ! a) = Some this)
   \<and> (b \<noteq> this \<longrightarrow> snd (stringify h this) ! b = h ! b)
   \<and> (b < length h \<longrightarrow> b \<noteq> l \<longrightarrow> b \<noteq> r \<longrightarrow> snd (combine h this l x r) ! b = h ! b)"
  using invoke_extends [of h this c] chain_extends [of h this cs]
    invoke_snapshot [of h this t s lo c a] stringify_other [of b this h]
    combine_old [of b h l r this x]
  by (simp del: invoke.simps)

theorem existing_objects_frame_witness:
  "snapshot divStore 1 ''div'' ''element'' 0
   \<and> fst (invoke divStore 1 (Id ''x'')) = Inr 2
   \<and> take (length divStore) (snd (invoke divStore 1 (Id ''x''))) = divStore
   \<and> snapshot (snd (invoke divStore 1 (Id ''x''))) 2 ''div#x'' ''id'' 1
   \<and> proto (snd (invoke divStore 1 (Id ''x'')) ! 2) = Some 1
   \<and> (0::nat) \<noteq> 1
   \<and> snd (stringify divStore 1) ! 0 = divStore ! 0
   \<and> (0::nat) < length divTableStore \<and> (0::nat) \<noteq> 1 \<and> (0::nat) \<noteq> 2
   \<and> snd (combine divTableStore cssSelectorBuilder 1 ''+'' 2) ! 0 = divTableStore ! 0"
proof -
  have s: "snapshot divStore 1 ''div'' ''element'' 0"
    by (rule divStore_snapshots)
  have i: "fst (invoke divStore 1 (Id ''x'')) = Inr 2"
    by (simp add: divStore_val builder_defs)
  have n: "(0::nat) < length divTableStore"
    by (simp add: divTableStore_val)
  have len: "length divStore = 2"
    by (simp add: divStore_val)
  show ?thesis
    using len s i n
      existing_objects_frame [where h = divStore and this = 1 and c = "Id ''x''"
        and cs = "[]" and t = "''div''" and s = "''element''" and lo = 0 and a = 2 and b = 0
        and l = 1 and r = 1 and x = "[]"]
      existing_objects_frame [where h = divTableStore and this = cssSelectorBuilder
        and c = "Id ''x''" and cs = "[]" and t = "[]" and s = "[]" and lo = "- 1" and a = 3
        and b = 0 and l = 1 and r = 2 and x = "''+''"]
    by (simp add: rank_simps del: invoke.simps)
qed

section \<open>The round trip through JSON\<close>

lemmas json_defs =
  arrayIndex_def isDigit_def decimal_def goesBefore_def defineProperty_def JSON_parse_def
  Object_values_def getJSON_def fromJSON_def positional_def enumerated_def

lemma place_append:
  "\<forall>(k', v') \<in> set kvs. \<not> goesBefore k k' \<Longrightarrow> place k v kvs = kvs @ [(k, v)]"
  by (induction kvs) auto

lemma defineProperty_append:
  assumes "enumerated (kvs @ [(k, v)])"
  shows "defineProperty kvs k v = kvs @ [(k, v)]"
proof -
  from assms have "k \<notin> fst ` set kvs" and "\<forall>(k', v') \<in> set kvs. \<not> goesBefore k k'"
    by (auto simp add: enumerated_def sorted_wrt_append)
  then show ?thesis
    by (simp add: defineProperty_def place_append)
qed

lemma enumerated_prefix: "enumerated (xs @ ys) \<Longrightarrow> enumerated xs"
  by (simp add: enumerated_def sorted_wrt_append)

lemma foldl_defineProperty:
  "enumerated (acc @ kvs) \<Longrightarrow>
     foldl (\<lambda>obj (k, v). defineProperty obj k v) acc kvs = acc @ kvs"
proof (induction kvs arbitrary: acc)
  case Nil
  show ?case by simp
next
  case (Cons kv kvs)
  obtain k v where kv: "kv = (k, v)"
    by (cases kv)
  from Cons.prems kv have all: "enumerated ((acc @ [(k, v)]) @ kvs)"
    by simp
  then have "enumerated (acc @ [(k, v)])"
    by (rule enumerated_prefix)
  then have "defineProperty acc k v = acc @ [(k, v)]"
    by (rule defineProperty_append)
  with Cons.IH [OF all] kv show ?case
    by simp
qed

lemma concat_singletons:
  "(\<And>x. x \<in> set xs \<Longrightarrow> g x = [h x]) \<Longrightarrow> concat (map g xs) = map h xs"
  by (induction xs) simp_all

lemma round_trip_value:
  "plainData v \<Longrightarrow> \<exists>j. JSON_stringify v = Some j \<and> parseValue j = v"
proof (induction v)
  case (Arr xs)
  then have each: "\<exists>j. JSON_stringify x = Some j \<and> parseValue j = x" if "x \<in> set xs" for x
    using that by simp
  have "parseValue (case JSON_stringify x of None \<Rightarrow> JNull | Some j \<Rightarrow> j) = x"
    if "x \<in> set xs" for x
    using each [OF that] by auto
  then have "map parseValue (map (\<lambda>x. case JSON_stringify x of None \<Rightarrow> JNull | Some j \<Rightarrow> j) xs) = xs"
    by (simp add: map_idI)
  then show ?case
    by simp
next
  case (Obj kvs)
  then have each: "\<exists>j. JSON_stringify v = Some j \<and> parseValue j = v" if "(k, v) \<in> set kvs" for k v
    using that by fastforce
  let ?g = "\<lambda>(k, v). case JSON_stringify v of None \<Rightarrow> [] | Some j \<Rightarrow> [(k, j)]"
  let ?h = "\<lambda>(k, v). (k, the (JSON_stringify v))"
  have "?g kv = [?h kv]" if "kv \<in> set kvs" for kv
    using each [of "fst kv" "snd kv"] that by (cases kv) auto
  then have "concat (map ?g kvs) = map ?h kvs"
    by (rule concat_singletons)
  moreover have "(\<lambda>(k, j). (k, parseValue j)) (?h kv) = kv" if "kv \<in> set kvs" for kv
    using each [of "fst kv" "snd kv"] that by (cases kv) auto
  then have "map ((\<lambda>(k, j). (k, parseValue j)) \<circ> ?h) kvs = kvs"
    by (intro map_idI) simp
  ultimately have "map (\<lambda>(k, j). (k, parseValue j)) (concat (map ?g kvs)) = kvs"
    by simp
  moreover from Obj.prems have "enumerated ([] @ kvs)"
    by simp
  ultimately show ?case
    by (simp add: foldl_defineProperty del: append_Nil)
qed simp_all

lemma positional_constructor:
  assumes "enumerated kvs"
  shows "constructor (positional (map fst kvs)) (map snd kvs) = Obj kvs"
proof -
  have "zip (map fst kvs) (map snd kvs) = kvs"
    by (simp add: zip_map_fst_snd)
  moreover from assms have "enumerated ([] @ kvs)"
    by simp
  ultimately show ?thesis
    by (simp add: positional_def foldl_defineProperty del: append_Nil)
qed

text \<open>
  A property that holds \<^verbatim>\<open>undefined\<close> is not written. The object
  \<^verbatim>\<open>{a: undefined, b: 1}\<close> of a type with the constructor parameters \<^verbatim>\<open>a, b\<close> has
  its keys in the order of the parameters; its text is \<^verbatim>\<open>{"b":1}\<close>, the constructor
  is called with the one value 1, and the instance built has \<^verbatim>\<open>a = 1\<close> and
  \<^verbatim>\<open>b = undefined\<close>: it is not the original.
\<close>

theorem fromJSON_getJSON_drops_undefined:
  "enumerated [(''a'', Undefined), (''b'', Num 1)]
   \<and> map fst [(''a'', Undefined), (''b'', Num 1)] = [''a'', ''b'']
   \<and> getJSON (Obj [(''a'', Undefined), (''b'', Num 1)]) = Some (JObj [(''b'', JNum 1)])
   \<and> fromJSON (positional [''a'', ''b'']) (getJSON (Obj [(''a'', Undefined), (''b'', Num 1)]))
       = Inr (Obj [(''a'', Num 1), (''b'', Undefined)])
   \<and> fromJSON (positional [''a'', ''b'']) (getJSON (Obj [(''a'', Undefined), (''b'', Num 1)]))
       \<noteq> Inr (Obj [(''a'', Undefined), (''b'', Num 1)])"
  by (simp add: json_defs)

text \<open>
  Claim C8, as the code has it. For an object whose property values are JSON data
  throughout, \<open>fromJSON\<close> applied to the text of \<open>getJSON\<close> succeeds and calls the
  constructor of the given prototype with the values of the object, in enumeration order.
  When the constructor stores its parameters under their names and the parameters are the
  keys of the object in enumeration order, the instance built is the original. For
  \<^verbatim>\<open>{width: 10, height: 20}\<close> and the parameters \<^verbatim>\<open>width, height\<close> the instance is
  \<^verbatim>\<open>{width: 10, height: 20}\<close>, and the documented call
  \<^verbatim>\<open>fromJSON(Circle.prototype, '{"radius":10}')\<close> builds the circle of radius 10.
\<close>

theorem fromJSON_getJSON_plain_data:
  assumes "plainData (Obj kvs)"
  shows "fromJSON proto' (getJSON (Obj kvs)) = Inr (constructor proto' (map snd kvs))
    \<and> fromJSON (positional (map fst kvs)) (getJSON (Obj kvs)) = Inr (Obj kvs)
    \<and> fromJSON (positional [''width'', ''height''])
          (getJSON (Obj [(''width'', Num 10), (''height'', Num 20)]))
        = Inr (Obj [(''width'', Num 10), (''height'', Num 20)])
    \<and> fromJSON (positional [''radius'']) (Some (JObj [(''radius'', JNum 10)]))
        = Inr (Obj [(''radius'', Num 10)])"
proof -
  from round_trip_value [OF assms] obtain j
    where j: "JSON_stringify (Obj kvs) = Some j" "parseValue j = Obj kvs"
    by blast
  then have gen: "fromJSON p (getJSON (Obj kvs)) = Inr (constructor p (map snd kvs))"
    for p :: "'b prototype"
    by (simp add: fromJSON_def getJSON_def JSON_parse_def Object_values_def)
  from assms have "enumerated kvs"
    by simp
  then have "fromJSON (positional (map fst kvs)) (getJSON (Obj kvs)) = Inr (Obj kvs)"
    by (simp only: gen positional_constructor)
  moreover have "fromJSON (positional [''width'', ''height''])
      (getJSON (Obj [(''width'', Num 10), (''height'', Num 20)]))
      = Inr (Obj [(''width'', Num 10), (''height'', Num 20)])"
    by (simp add: json_defs)
  moreover have "fromJSON (positional [''radius'']) (Some (JObj [(''radius'', JNum 10)]))
      = Inr (Obj [(''radius'', Num 10)])"
    by (simp add: json_defs)
  ultimately show ?thesis
    using gen [of proto'] by simp
qed

theorem fromJSON_getJSON_plain_data_witness:
  "plainData (Obj [(''0'', Str ''x''), (''name'', Arr [Num 1, Null]),
       (''size'', Obj [(''w'', Num 10), (''h'', Bool True)])])
   \<and> fromJSON (positional [''0'', ''name'', ''size''])
        (getJSON (Obj [(''0'', Str ''x''), (''name'', Arr [Num 1, Null]),
           (''size'', Obj [(''w'', Num 10), (''h'', Bool True)])]))
      = Inr (Obj [(''0'', Str ''x''), (''name'', Arr [Num 1, Null]),
           (''size'', Obj [(''w'', Num 10), (''h'', Bool True)])])"
proof -
  have p: "plainData (Obj [(''0'', Str ''x''), (''name'', Arr [Num 1, Null]),
       (''size'', Obj [(''w'', Num 10), (''h'', Bool True)])])"
    by (simp add: json_defs)
  show ?thesis
    using p fromJSON_getJSON_plain_data [OF p, of "positional []"] by simp
qed

end
